theory Spec2Isabelle
  imports Main
begin

section \<open>JavaScript values and objects\<close>

text \<open>
  The content script and the background relay exchange plain JavaScript data. A value is
  \<open>undefined\<close>, \<open>null\<close>, an integral number, a string or an object. An object is the list
  of its own properties in insertion order, each key once (the special treatment
  JavaScript gives the key \<open>__proto__\<close> and keys that are array indices is not
  modelled). A string is the list of its code units, so \<open>length\<close> is JavaScript's
  \<open>.length\<close>.
\<close>

datatype jsval =
    JUndefined
  | JNull
  | JNum int
  | JStr string
  | JObj "(string \<times> jsval) list"

type_synonym jsobj = "(string \<times> jsval) list"

text \<open>Truthiness, as \<open>!x\<close>, \<open>if (x)\<close> and \<open>x || y\<close> read it.\<close>

fun truthy :: "jsval \<Rightarrow> bool" where
  "truthy JUndefined = False"
| "truthy JNull = False"
| "truthy (JNum n) = (n \<noteq> 0)"
| "truthy (JStr s) = (s \<noteq> [])"
| "truthy (JObj ps) = True"

definition js_or :: "jsval \<Rightarrow> jsval \<Rightarrow> jsval" where
  "js_or a b = (if truthy a then a else b)"

text \<open>\<open>o[k]\<close> and \<open>o[k] = v\<close>: an existing key keeps its place, a new key goes last.\<close>

definition obj_get :: "jsobj \<Rightarrow> string \<Rightarrow> jsval option" where
  "obj_get ob k = map_of ob k"

fun obj_set :: "string \<Rightarrow> jsval \<Rightarrow> jsobj \<Rightarrow> jsobj" where
  "obj_set k v [] = [(k, v)]"
| "obj_set k v ((k', v') # ps) =
     (if k = k' then (k, v) # ps else (k', v') # obj_set k v ps)"

definition has_key :: "jsobj \<Rightarrow> string \<Rightarrow> bool" where
  "has_key ob k = (k \<in> set (map fst ob))"

text \<open>The object literal \<open>{ ...base, ...extra }\<close>: the properties of \<open>extra\<close> are assigned
  onto a copy of \<open>base\<close>, in order.\<close>

fun spread :: "jsobj \<Rightarrow> jsobj \<Rightarrow> jsobj" where
  "spread base [] = base"
| "spread base ((k, v) # extra) = spread (obj_set k v base) extra"

subsection \<open>Strings\<close>

text \<open>\<open>String.prototype.toLowerCase\<close> on the code units below 256: the letters A to Z
  and the capital letters of Latin-1 (192 to 222, the multiplication sign 215 apart)
  move up by 32.\<close>

definition lower_char :: "char \<Rightarrow> char" where
  "lower_char c =
     (let n = (of_char c :: nat) in
      if (65 \<le> n \<and> n \<le> 90) \<or> (192 \<le> n \<and> n \<le> 222 \<and> n \<noteq> 215)
      then char_of (n + 32) else c)"

definition toLowerCase :: "string \<Rightarrow> string" where
  "toLowerCase s = map lower_char s"

text \<open>The white space of \<open>trim\<close> and of the regular expression class \<open>\s\<close>, among the
  code units below 256: tab, line feed, vertical tab, form feed, carriage return, space
  and the no-break space.\<close>

definition is_space :: "char \<Rightarrow> bool" where
  "is_space c = ((of_char c :: nat) \<in> {9, 10, 11, 12, 13, 32, 160})"

definition trim :: "string \<Rightarrow> string" where
  "trim s = rev (dropWhile is_space (rev (dropWhile is_space s)))"

text \<open>\<open>s.split(/\s+/)\<close>: the pieces between the maximal runs of white space; \<open>cur\<close> is the
  piece being read.\<close>

function split_ws :: "string \<Rightarrow> string \<Rightarrow> string list" where
  "split_ws cur [] = [cur]"
| "split_ws cur (c # cs) =
     (if is_space c then cur # split_ws [] (dropWhile is_space cs)
      else split_ws (cur @ [c]) cs)"
  by pat_completeness auto
termination
  by (relation "measure (\<lambda>(cur, s). length s)")
     (auto simp: less_Suc_eq_le length_dropWhile_le)

text \<open>\<open>xs.join(sep)\<close>.\<close>

fun join :: "string \<Rightarrow> string list \<Rightarrow> string" where
  "join sep [] = []"
| "join sep [x] = x"
| "join sep (x # y # ys) = x @ sep @ join sep (y # ys)"

text \<open>A number in a template literal: the decimal digits of an integer.\<close>

fun nat_dec :: "nat \<Rightarrow> string" where
  "nat_dec n =
     (if n < 10 then [char_of (48 + n)]
      else nat_dec (n div 10) @ [char_of (48 + n mod 10)])"

declare nat_dec.simps [simp del]

definition num_string :: "int \<Rightarrow> string" where
  "num_string i = (if i < 0 then CHR ''-'' # nat_dec (nat (- i)) else nat_dec (nat i))"

text \<open>\<open>xs.indexOf(x)\<close>: the first position of \<open>x\<close>, or \<open>-1\<close>.\<close>

fun indexOf :: "'a list \<Rightarrow> 'a \<Rightarrow> int" where
  "indexOf [] x = - 1"
| "indexOf (y # ys) x =
     (if y = x then 0
      else (let i = indexOf ys x in if i < 0 then - 1 else i + 1))"

section \<open>The DOM as the content script reads it\<close>

text \<open>
  A control of a form, as \<open>new FormData(form)\<close> and \<open>form.querySelector\<close> see it: the
  \<open>name\<close> attribute, the \<open>type\<close> property (\<open>None\<close> when the element has none), the value
  it submits, and whether it contributes an entry to the form data set (it does not when
  it is disabled, an unchecked check box, a button that did not submit the form).
\<close>

record form_field =
  field_name :: string
  field_type :: "string option"
  field_value :: string
  successful :: bool

text \<open>
  What reading \<open>element.id\<close> gives. It is the string of the \<open>id\<close> attribute (empty
  without one), except on a form that has a control whose \<open>name\<close> or \<open>id\<close> is \<open>id\<close>: a
  form answers a property read with the control of that name before its own
  properties, so \<open>element.id\<close> is then that control, a host object given here by the
  name of its interface. Truthiness and the string a template literal makes of it:
\<close>

datatype prop_value = PString string | PHost string

fun prop_truthy :: "prop_value \<Rightarrow> bool" where
  "prop_truthy (PString s) = (s \<noteq> [])"
| "prop_truthy (PHost c) = True"

fun prop_string :: "prop_value \<Rightarrow> string" where
  "prop_string (PString s) = s"
| "prop_string (PHost c) = ''[object '' @ c @ '']''"

text \<open>
  An element. \<open>node\<close> is its identity. \<open>el_id\<close> is what \<open>element.id\<close> reads as, while
  \<open>attributes\<close> holds the attributes themselves. The other properties are taken as the
  element's own (no control of a form is named like one of them), and the target of an
  event is taken to be an element: on another target, the document for one,
  \<open>getAttributes\<close> finds no \<open>hasAttribute\<close> and throws, and no record is built.
  \<open>className\<close> is a string on an HTML element and an object on an SVG element. \<open>innerText\<close> is \<open>None\<close> where the element has no such property.
  \<open>parentElement\<close> is \<open>None\<close> for \<open>null\<close>, and otherwise the parent's \<open>children\<close>, each
  child by identity and \<open>tagName\<close>. \<open>formFields\<close> lists, in tree order, the descendants
  that carry a \<open>name\<close> attribute (of a form: its controls; a control tied to the form
  from outside its subtree by a \<open>form\<close> attribute is not modelled).
\<close>

record dom_element =
  node :: nat
  tagName :: string
  el_id :: prop_value
  className :: jsval
  attributes :: "(string \<times> string) list"
  innerText :: "string option"
  el_type :: "string option"
  el_value :: jsval
  parentElement :: "(nat \<times> string) list option"
  formFields :: "form_field list"

section \<open>content.js\<close>

definition MAX_INNER_TEXT_LENGTH :: nat where
  "MAX_INNER_TEXT_LENGTH = 100"

text \<open>\<open>generateSelector\<close>: \<open>None\<close> is the \<open>null\<close> it returns for a target without a tag
  name. Priority: id, then tag and classes, then the position among the siblings of the
  same tag.\<close>

definition generateSelector :: "dom_element \<Rightarrow> string option" where
  "generateSelector element =
     (if tagName element = [] then None
      else
        let tag = toLowerCase (tagName element) in
        if prop_truthy (el_id element) then Some (''#'' @ prop_string (el_id element))
        else
          let classes =
                (case className element of
                   JStr cn \<Rightarrow> if cn \<noteq> [] then filter (\<lambda>c. c \<noteq> []) (split_ws [] (trim cn)) else []
                 | _ \<Rightarrow> [])
          in
          if length classes > 0 then Some (tag @ ''.'' @ join ''.'' classes)
          else
            let index =
                  (case parentElement element of
                     None \<Rightarrow> 1
                   | Some siblings \<Rightarrow>
                       let sameTagSiblings = filter (\<lambda>s. snd s = tagName element) siblings
                       in indexOf (map fst sameTagSiblings) (node element) + 1)
            in Some (tag @ '':nth-child('' @ num_string index @ '')''))"

text \<open>\<open>getAttributes\<close>: the loop over the fixed list of attribute names.\<close>

definition relevantAttrs :: "string list" where
  "relevantAttrs =
     [''id'', ''class'', ''name'', ''type'', ''href'', ''src'', ''value'', ''placeholder'',
      ''data-testid'']"

fun getAttributes_loop :: "dom_element \<Rightarrow> string list \<Rightarrow> jsobj \<Rightarrow> jsobj" where
  "getAttributes_loop element [] attrs = attrs"
| "getAttributes_loop element (attr # rest) attrs =
     (case map_of (attributes element) attr of
        Some v \<Rightarrow> getAttributes_loop element rest (obj_set attr (JStr v) attrs)
      | None \<Rightarrow> getAttributes_loop element rest attrs)"

definition getAttributes :: "dom_element \<Rightarrow> jsobj" where
  "getAttributes element = getAttributes_loop element relevantAttrs []"

text \<open>\<open>getInnerText\<close>: \<open>element.innerText || ''\<close>, cut at the maximum with the marker.\<close>

definition getInnerText :: "dom_element \<Rightarrow> string" where
  "getInnerText element =
     (let text = (case innerText element of None \<Rightarrow> [] | Some t \<Rightarrow> t) in
      if length text > MAX_INNER_TEXT_LENGTH
      then take MAX_INNER_TEXT_LENGTH text @ ''...''
      else text)"

text \<open>\<open>getInputValue\<close>: \<open>null\<close> for a password field, else \<open>element.value || null\<close>.\<close>

definition getInputValue :: "dom_element \<Rightarrow> jsval" where
  "getInputValue element =
     (if el_type element = Some ''password'' then JNull
      else js_or (el_value element) JNull)"

text \<open>
  Exceptions. \<open>TypeError\<close> is JavaScript's. \<open>ContextInvalidated\<close> is what
  \<open>chrome.runtime.sendMessage\<close> throws once the extension context is gone.
  \<open>SelectorNotLiteral\<close> marks the edge of the model of \<open>querySelector\<close>: the text
  \<open>[name="..."]\<close> built from a name that holds a quote, a backslash, a line break or a
  null character is not the attribute selector for that name, and what the CSS parser
  makes of it (a syntax error or another selector) is not modelled.
\<close>

datatype exn = TypeError | ContextInvalidated | SelectorNotLiteral

definition css_plain :: "string \<Rightarrow> bool" where
  "css_plain name = list_all (\<lambda>c. (of_char c :: nat) \<notin> {0, 10, 12, 13, 34, 92}) name"

text \<open>\<open>form.querySelector(`[name="${name}"]`)\<close>: the first descendant, in tree order,
  whose \<open>name\<close> attribute is \<open>name\<close>; \<open>None\<close> is \<open>null\<close>.\<close>

definition querySelector_name :: "dom_element \<Rightarrow> string \<Rightarrow> exn + form_field option" where
  "querySelector_name form name =
     (if css_plain name then Inr (find (\<lambda>f. field_name f = name) (formFields form))
      else Inl SelectorNotLiteral)"

text \<open>\<open>new FormData(form).entries()\<close>: one entry for each successful control with a
  non-empty name, in tree order. The constructor throws on a target that is not a form.\<close>

definition formData_entries :: "dom_element \<Rightarrow> exn + (string \<times> string) list" where
  "formData_entries form =
     (if tagName form = ''FORM''
      then Inr (map (\<lambda>f. (field_name f, field_value f))
                  (filter (\<lambda>f. successful f \<and> field_name f \<noteq> []) (formFields form)))
      else Inl TypeError)"

text \<open>\<open>getFormValues\<close>: the loop over the entries; an exception of \<open>querySelector\<close>
  leaves the function.\<close>

fun getFormValues_loop :: "dom_element \<Rightarrow> (string \<times> string) list \<Rightarrow> jsobj \<Rightarrow> exn + jsobj" where
  "getFormValues_loop form [] values = Inr values"
| "getFormValues_loop form ((name, v) # rest) values =
     (case querySelector_name form name of
        Inl e \<Rightarrow> Inl e
      | Inr field \<Rightarrow>
          (if (case field of None \<Rightarrow> False | Some f \<Rightarrow> field_type f = Some ''password'')
           then getFormValues_loop form rest (obj_set name (JStr ''[REDACTED]'') values)
           else getFormValues_loop form rest (obj_set name (JStr v) values)))"

definition getFormValues :: "dom_element \<Rightarrow> exn + jsobj" where
  "getFormValues form =
     (case formData_entries form of
        Inl e \<Rightarrow> Inl e
      | Inr entries \<Rightarrow> getFormValues_loop form entries [])"

text \<open>
  The page the script runs in: the clock (\<open>Date.now()\<close>), \<open>window.location.href\<close>, and
  the three delivery channels. \<open>runtime_throws\<close> says whether
  \<open>chrome.runtime.sendMessage\<close> throws; \<open>sent\<close> are the runtime messages that went out;
  \<open>debug_lines\<close> and \<open>console_lines\<close> are what \<open>console.debug\<close> and \<open>console.log\<close>
  printed; \<open>webLoggerEvents\<close> is \<open>window.__webLoggerEvents__\<close>.
\<close>

record message =
  msg_type :: string
  msg_data :: jsval

datatype window_buffer =
    WUndefined
  | WArray "jsobj list"
  | WNonArray

record page =
  now :: int
  href :: string
  runtime_throws :: bool
  sent :: "message list"
  debug_lines :: "string list"
  console_lines :: "string list"
  webLoggerEvents :: window_buffer

text \<open>\<open>createLogEntry\<close>: the defaults, then \<open>...extraData\<close> over them.\<close>

definition createLogEntry :: "page \<Rightarrow> string \<Rightarrow> dom_element \<Rightarrow> jsobj \<Rightarrow> jsobj" where
  "createLogEntry pg eventType element extraData =
     spread
       [(''timestamp'', JNum (now pg)),
        (''type'', JStr ''interaction''),
        (''event'', JStr eventType),
        (''selector'', (case generateSelector element of None \<Rightarrow> JNull | Some s \<Rightarrow> JStr s)),
        (''tagName'', JStr (tagName element)),
        (''attributes'', JObj (getAttributes element)),
        (''value'', JNull),
        (''innerText'', JStr (getInnerText element)),
        (''url'', JStr (href pg))]
       extraData"

text \<open>The two guarded blocks of \<open>sendEvent\<close>, each as a step that may throw.\<close>

definition runtime_sendMessage :: "page \<Rightarrow> message \<Rightarrow> exn + page" where
  "runtime_sendMessage pg m =
     (if runtime_throws pg then Inl ContextInvalidated
      else Inr (pg\<lparr>sent := sent pg @ [m]\<rparr>))"

text \<open>The block on \<open>window.__webLoggerEvents__\<close>: an undefined buffer becomes an empty
  array first; \<open>push\<close> on a value that is no array throws.\<close>

definition window_push :: "page \<Rightarrow> jsobj \<Rightarrow> exn + page" where
  "window_push pg logEntry =
     (case webLoggerEvents pg of
        WUndefined \<Rightarrow> Inr (pg\<lparr>webLoggerEvents := WArray ([] @ [logEntry])\<rparr>)
      | WArray es \<Rightarrow> Inr (pg\<lparr>webLoggerEvents := WArray (es @ [logEntry])\<rparr>)
      | WNonArray \<Rightarrow> Inl TypeError)"

definition WEB_LOGGER_EVENT :: string where
  "WEB_LOGGER_EVENT = ''WEB_LOGGER_EVENT:''"

text \<open>\<open>sendEvent\<close>. \<open>stringify\<close> is \<open>JSON.stringify\<close>, a parameter. The first block
  catches into \<open>console.debug\<close>, the last one catches and does nothing; \<open>console.log\<close>
  stands between them, unguarded.\<close>

definition sendEvent :: "(jsobj \<Rightarrow> string) \<Rightarrow> page \<Rightarrow> jsobj \<Rightarrow> exn + page" where
  "sendEvent stringify pg logEntry =
     (let pg1 =
            (case runtime_sendMessage pg \<lparr>msg_type = ''interaction'', msg_data = JObj logEntry\<rparr> of
               Inr p \<Rightarrow> p
             | Inl e \<Rightarrow> pg\<lparr>debug_lines := debug_lines pg @ [''Web Logger: Could not send event'']\<rparr>);
          pg2 = pg1\<lparr>console_lines := console_lines pg1 @ [WEB_LOGGER_EVENT @ stringify logEntry]\<rparr>
      in (case window_push pg2 logEntry of
            Inr p \<Rightarrow> Inr p
          | Inl e \<Rightarrow> Inr pg2))"

text \<open>The four handlers; \<open>element\<close> is \<open>event.target\<close>.\<close>

definition handleClick :: "(jsobj \<Rightarrow> string) \<Rightarrow> page \<Rightarrow> dom_element \<Rightarrow> exn + page" where
  "handleClick stringify pg element =
     sendEvent stringify pg (createLogEntry pg ''click'' element [])"

definition handleInput :: "(jsobj \<Rightarrow> string) \<Rightarrow> page \<Rightarrow> dom_element \<Rightarrow> exn + page" where
  "handleInput stringify pg element =
     sendEvent stringify pg
       (createLogEntry pg ''input'' element [(''value'', getInputValue element)])"

definition handleChange :: "(jsobj \<Rightarrow> string) \<Rightarrow> page \<Rightarrow> dom_element \<Rightarrow> exn + page" where
  "handleChange stringify pg element =
     sendEvent stringify pg
       (createLogEntry pg ''change'' element [(''value'', getInputValue element)])"

definition handleSubmit :: "(jsobj \<Rightarrow> string) \<Rightarrow> page \<Rightarrow> dom_element \<Rightarrow> exn + page" where
  "handleSubmit stringify pg form =
     (case getFormValues form of
        Inl e \<Rightarrow> Inl e
      | Inr formValues \<Rightarrow>
          sendEvent stringify pg
            (createLogEntry pg ''submit'' form [(''formValues'', JObj formValues)]))"

section \<open>The background relay\<close>

text \<open>
  The service worker's state: the array \<open>capturedEvents\<close>, the \<open>newInteraction\<close>
  notifications it sent on, and whether that \<open>chrome.runtime.sendMessage\<close> throws. The
  sender of a message has a tab or none; a tab has an \<open>id\<close> and a \<open>url\<close>.
\<close>

record relay =
  capturedEvents :: "jsval list"
  notified :: "message list"
  notify_throws :: bool

record sender =
  tab :: "(jsval \<times> jsval) option"

text \<open>\<open>event.tabId = v\<close> on the message's data: a property of an object is set, the
  assignment to \<open>undefined\<close> or \<open>null\<close> throws, and on a number or a string it does
  nothing (the worker is not in strict mode).\<close>

definition set_prop :: "jsval \<Rightarrow> string \<Rightarrow> jsval \<Rightarrow> exn + jsval" where
  "set_prop target k v =
     (case target of
        JObj ob \<Rightarrow> Inr (JObj (obj_set k v ob))
      | JUndefined \<Rightarrow> Inl TypeError
      | JNull \<Rightarrow> Inl TypeError
      | _ \<Rightarrow> Inr target)"

text \<open>The listener of \<open>chrome.runtime.onMessage\<close>. An exception leaves the listener
  before the push.\<close>

definition onMessage :: "relay \<Rightarrow> message \<Rightarrow> sender \<Rightarrow> exn + relay" where
  "onMessage rl m sndr =
     (if msg_type m = ''interaction'' then
        (case set_prop (msg_data m) ''tabId''
                (case tab sndr of None \<Rightarrow> JUndefined | Some t \<Rightarrow> fst t) of
           Inl e \<Rightarrow> Inl e
         | Inr event1 \<Rightarrow>
             (case set_prop event1 ''tabUrl''
                     (case tab sndr of None \<Rightarrow> JUndefined | Some t \<Rightarrow> snd t) of
                Inl e \<Rightarrow> Inl e
              | Inr event \<Rightarrow>
                  (let rl1 = rl\<lparr>capturedEvents := capturedEvents rl @ [event]\<rparr> in
                   if notify_throws rl1 then Inr rl1
                   else Inr (rl1\<lparr>notified := notified rl1 @
                               [\<lparr>msg_type = ''newInteraction'', msg_data = event\<rparr>]\<rparr>))))
      else Inr rl)"

text \<open>What the relay answers: \<open>{ events: [...] }\<close> or \<open>{ success: true }\<close>.\<close>

datatype response = Events "jsval list" | Success

text \<open>The listener of \<open>chrome.runtime.onMessageExternal\<close>: the answer given to
  \<open>sendResponse\<close> (if any) and the state after.\<close>

definition onMessageExternal :: "relay \<Rightarrow> message \<Rightarrow> response option \<times> relay" where
  "onMessageExternal rl m =
     (if msg_type m = ''getEvents'' then (Some (Events (capturedEvents rl)), rl)
      else if msg_type m = ''clearEvents''
        then (Some Success, rl\<lparr>capturedEvents := []\<rparr>)
      else if msg_type m = ''getAndClearEvents''
        then (let events = capturedEvents rl
              in (Some (Events events), rl\<lparr>capturedEvents := []\<rparr>))
      else (None, rl))"

text \<open>The listener a port gets in \<open>chrome.runtime.onConnect\<close>, when the port is named
  \<open>web-logger\<close>: three tests in a row, each posting its answer; a port of another name
  gets no listener.\<close>

definition onPortMessage :: "string \<Rightarrow> relay \<Rightarrow> message \<Rightarrow> response list \<times> relay" where
  "onPortMessage port_name rl m =
     (if port_name = ''web-logger'' then
        (let (posted1, rl1) =
               (if msg_type m = ''getEvents'' then ([Events (capturedEvents rl)], rl)
                else ([], rl));
             (posted2, rl2) =
               (if msg_type m = ''clearEvents''
                then (posted1 @ [Success], rl1\<lparr>capturedEvents := []\<rparr>)
                else (posted1, rl1))
         in (if msg_type m = ''getAndClearEvents''
             then (let events = capturedEvents rl2
                   in (posted2 @ [Events events], rl2\<lparr>capturedEvents := []\<rparr>))
             else (posted2, rl2)))
      else ([], rl))"

text \<open>What reaches the worker, and a run of the worker over a sequence of arrivals. A
  listener that throws has changed nothing.\<close>

datatype arrival =
    FromContent message sender
  | External message
  | OnPort string message

definition relay_step :: "relay \<Rightarrow> arrival \<Rightarrow> relay" where
  "relay_step rl a =
     (case a of
        FromContent m sndr \<Rightarrow> (case onMessage rl m sndr of Inl e \<Rightarrow> rl | Inr rl' \<Rightarrow> rl')
      | External m \<Rightarrow> snd (onMessageExternal rl m)
      | OnPort port_name m \<Rightarrow> snd (onPortMessage port_name rl m))"

definition relay_run :: "relay \<Rightarrow> arrival list \<Rightarrow> relay" where
  "relay_run rl arrivals = foldl relay_step rl arrivals"

definition relay_start :: relay where
  "relay_start = \<lparr>capturedEvents = [], notified = [], notify_throws = False\<rparr>"

text \<open>
  The events accumulated since the last clear, in the words of the specification: take
  the arrivals after the last clearing request (\<open>clearEvents\<close> or \<open>getAndClearEvents\<close>, on
  either interface); each interaction message among them whose data can carry the tab
  information contributes its data with \<open>tabId\<close> and \<open>tabUrl\<close> set, in arrival order.
\<close>

definition is_clearing :: "arrival \<Rightarrow> bool" where
  "is_clearing a =
     (case a of
        FromContent m sndr \<Rightarrow> False
      | External m \<Rightarrow> msg_type m = ''clearEvents'' \<or> msg_type m = ''getAndClearEvents''
      | OnPort port_name m \<Rightarrow>
          port_name = ''web-logger'' \<and>
          (msg_type m = ''clearEvents'' \<or> msg_type m = ''getAndClearEvents''))"

definition after_last_clear :: "arrival list \<Rightarrow> arrival list" where
  "after_last_clear arrivals = rev (takeWhile (\<lambda>a. \<not> is_clearing a) (rev arrivals))"

definition tagged :: "jsval \<Rightarrow> sender \<Rightarrow> jsval option" where
  "tagged d sndr =
     (case d of
        JUndefined \<Rightarrow> None
      | JNull \<Rightarrow> None
      | JObj ob \<Rightarrow>
          Some (JObj (obj_set ''tabUrl'' (case tab sndr of None \<Rightarrow> JUndefined | Some t \<Rightarrow> snd t)
                       (obj_set ''tabId'' (case tab sndr of None \<Rightarrow> JUndefined | Some t \<Rightarrow> fst t) ob)))
      | _ \<Rightarrow> Some d)"

fun contribution :: "arrival \<Rightarrow> jsval list" where
  "contribution (FromContent m sndr) =
     (if msg_type m = ''interaction''
      then (case tagged (msg_data m) sndr of None \<Rightarrow> [] | Some ev \<Rightarrow> [ev])
      else [])"
| "contribution (External m) = []"
| "contribution (OnPort port_name m) = []"

definition accumulated :: "arrival list \<Rightarrow> jsval list" where
  "accumulated arrivals = concat (map contribution (after_last_clear arrivals))"

section \<open>The session timeline\<close>

text \<open>
  The timeline lives in the merger module (\<open>add_event\<close>) and the recorder's main
  module, which are not among the sources at hand; what follows is taken from the
  specification, sections 4.4 and 6. Its events are the records as they come off the
  delivery channels.
\<close>

text \<open>Modelled from the spec: the three transports of an interaction (a structured
  message call, a console line with a fixed prefix, a polled in-page buffer). The
  recorder's listeners for them are missing.\<close>

datatype channel = RuntimeMessage | ConsoleLine | PolledBuffer

text \<open>Modelled from the spec: the stable content key of an event, timestamp, selector
  and event kind (the merger's key function is missing).\<close>

definition content_key :: "jsobj \<Rightarrow> jsval option \<times> jsval option \<times> jsval option" where
  "content_key ev = (obj_get ev ''timestamp'', obj_get ev ''selector'', obj_get ev ''event'')"

text \<open>Modelled from the spec: the discriminant \<open>type\<close> of an event, \<open>interaction\<close> or
  \<open>network\<close> (the merger's test is missing).\<close>

definition is_interaction :: "jsobj \<Rightarrow> bool" where
  "is_interaction ev = (obj_get ev ''type'' = Some (JStr ''interaction''))"

text \<open>Modelled from the spec: \<open>e\<close> records the interaction that \<open>ev\<close> describes when it
  is an interaction event with the content key of \<open>ev\<close>.\<close>

definition same_interaction :: "jsobj \<Rightarrow> jsobj \<Rightarrow> bool" where
  "same_interaction ev e = (is_interaction e \<and> content_key e = content_key ev)"

text \<open>Modelled from the spec: the timeline's \<open>append\<close> (the merger's \<open>add_event\<close> is
  missing). An interaction event whose content key the timeline already holds is a
  redundant delivery and is dropped; every other event is pushed at the end.\<close>

definition append_event :: "jsobj list \<Rightarrow> jsobj \<Rightarrow> jsobj list" where
  "append_event events ev =
     (if is_interaction ev \<and> list_ex (same_interaction ev) events then events
      else events @ [ev])"

text \<open>Modelled from the spec: the timeline after a sequence of deliveries, each through
  \<open>append\<close> (the recorder's loop is missing).\<close>

definition append_all :: "jsobj list \<Rightarrow> jsobj list \<Rightarrow> jsobj list" where
  "append_all events deliveries = foldl append_event events deliveries"

text \<open>The number of entries of a timeline that record the interaction \<open>ev\<close>
  describes.\<close>

definition entries_for :: "jsobj \<Rightarrow> jsobj list \<Rightarrow> nat" where
  "entries_for ev events = length (filter (same_interaction ev) events)"

section \<open>Notions of the specification\<close>

text \<open>
  An element has an empty class list when its \<open>className\<close> is a string of white space
  only (the empty string included) or is no string at all.
\<close>

definition no_class_list :: "dom_element \<Rightarrow> bool" where
  "no_class_list el = (case className el of JStr cn \<Rightarrow> list_all is_space cn | _ \<Rightarrow> True)"

text \<open>
  The DOM keeps an element that has a parent among that parent's children, and the
  children are distinct nodes.
\<close>

definition attached :: "dom_element \<Rightarrow> bool" where
  "attached el =
     (case parentElement el of
        None \<Rightarrow> True
      | Some kids \<Rightarrow> distinct (map fst kids) \<and> (node el, tagName el) \<in> set kids)"

text \<open>
  The 1-based position of an element among the children of its parent that have its tag
  name: one more than the number of such children before it; 1 without a parent.
\<close>

definition same_tag_position :: "dom_element \<Rightarrow> nat" where
  "same_tag_position el =
     (case parentElement el of
        None \<Rightarrow> 1
      | Some kids \<Rightarrow>
          Suc (length (filter (\<lambda>k. snd k = tagName el)
                 (takeWhile (\<lambda>k. fst k \<noteq> node el) kids))))"

text \<open>
  The first element of a form, in tree order, that carries the name \<open>name\<close> is a
  password field.
\<close>

definition first_named_is_password :: "dom_element \<Rightarrow> string \<Rightarrow> bool" where
  "first_named_is_password form name =
     (case find (\<lambda>f. field_name f = name) (formFields form) of
        None \<Rightarrow> False
      | Some f \<Rightarrow> field_type f = Some ''password'')"

section \<open>Sample pages, elements and forms\<close>

text \<open>A login page whose extension context is gone, two fields that share the name
  \<open>secret\<close> (a visible hint, then the password), the form that holds them, and an item
  of a list.\<close>

definition example_page :: page where
  "example_page =
     \<lparr>now = 1706000000000, href = ''https://example.com/login'', runtime_throws = True,
      sent = [], debug_lines = [], console_lines = [], webLoggerEvents = WUndefined\<rparr>"

definition password_input :: dom_element where
  "password_input =
     \<lparr>node = 2, tagName = ''INPUT'', el_id = PString ''pw'', className = JStr ''field wide'',
      attributes = [(''id'', ''pw''), (''class'', ''field wide''), (''type'', ''password''),
                    (''name'', ''secret'')],
      innerText = Some [], el_type = Some ''password'', el_value = JStr ''hunter2'',
      parentElement = Some [(1, ''INPUT''), (2, ''INPUT'')], formFields = []\<rparr>"

definition empty_text_input :: dom_element where
  "empty_text_input =
     \<lparr>node = 1, tagName = ''INPUT'', el_id = PString [], className = JStr ''field'',
      attributes = [(''class'', ''field''), (''type'', ''text''), (''name'', ''secret'')],
      innerText = Some [], el_type = Some ''text'', el_value = JStr [],
      parentElement = Some [(1, ''INPUT''), (2, ''INPUT'')], formFields = []\<rparr>"

definition list_item :: dom_element where
  "list_item =
     \<lparr>node = 12, tagName = ''LI'', el_id = PString [], className = JStr ''  '',
      attributes = [(''class'', ''  '')],
      innerText = Some ''second'', el_type = None, el_value = JNum 0,
      parentElement = Some [(10, ''LI''), (11, ''SPAN''), (12, ''LI''), (13, ''LI'')],
      formFields = []\<rparr>"

definition login_form :: dom_element where
  "login_form =
     \<lparr>node = 0, tagName = ''FORM'', el_id = PString ''login'', className = JStr [],
      attributes = [(''id'', ''login'')],
      innerText = Some [], el_type = None, el_value = JUndefined,
      parentElement = None,
      formFields =
        [\<lparr>field_name = ''secret'', field_type = Some ''text'', field_value = ''hint'',
          successful = True\<rparr>,
         \<lparr>field_name = ''secret'', field_type = Some ''password'', field_value = ''hunter2'',
          successful = True\<rparr>]\<rparr>"

text \<open>Two forms with a hidden control named \<open>id\<close>, as record-editing pages have it: one
  with the id \<open>edit\<close>, one without id and class, the second \<open>FORM\<close> child of its
  parent. On both, \<open>element.id\<close> is the control.\<close>

definition edit_form :: dom_element where
  "edit_form =
     \<lparr>node = 20, tagName = ''FORM'', el_id = PHost ''HTMLInputElement'', className = JStr [],
      attributes = [(''id'', ''edit'')],
      innerText = Some [], el_type = None, el_value = JUndefined,
      parentElement = Some [(20, ''FORM'')],
      formFields =
        [\<lparr>field_name = ''id'', field_type = Some ''hidden'', field_value = ''42'',
          successful = True\<rparr>,
         \<lparr>field_name = ''title'', field_type = Some ''text'', field_value = ''Draft'',
          successful = True\<rparr>]\<rparr>"

definition plain_form :: dom_element where
  "plain_form =
     \<lparr>node = 31, tagName = ''FORM'', el_id = PHost ''HTMLInputElement'', className = JStr [],
      attributes = [],
      innerText = Some [], el_type = None, el_value = JUndefined,
      parentElement = Some [(30, ''FORM''), (31, ''FORM'')],
      formFields =
        [\<lparr>field_name = ''id'', field_type = Some ''hidden'', field_value = ''42'',
          successful = True\<rparr>]\<rparr>"

text \<open>A click on the password field as the script records it, and the same record as
  the background relay stores it, with the tab of the sender.\<close>

definition click_entry :: jsobj where
  "click_entry = createLogEntry example_page ''click'' password_input []"

definition sample_sender :: sender where
  "sample_sender = \<lparr>tab = Some (JNum 7, JStr ''https://example.com/login'')\<rparr>"

definition relayed_click_entry :: jsobj where
  "relayed_click_entry =
     obj_set ''tabUrl'' (JStr ''https://example.com/login'')
       (obj_set ''tabId'' (JNum 7) click_entry)"

text \<open>Messages to the relay, and a sequence of arrivals: an interaction, a clearing
  read, an interaction, a plain read on a port, an interaction.\<close>

definition interaction_message :: "int \<Rightarrow> message" where
  "interaction_message k =
     \<lparr>msg_type = ''interaction'', msg_data = JObj [(''timestamp'', JNum k)]\<rparr>"

definition request :: "string \<Rightarrow> message" where
  "request t = \<lparr>msg_type = t, msg_data = JUndefined\<rparr>"

definition sample_arrivals :: "arrival list" where
  "sample_arrivals =
     [FromContent (interaction_message 1) sample_sender,
      External (request ''getAndClearEvents''),
      FromContent (interaction_message 2) sample_sender,
      OnPort ''web-logger'' (request ''getEvents''),
      FromContent (interaction_message 3) sample_sender]"

section \<open>Properties of the content script\<close>

subsection \<open>Objects\<close>

lemma obj_get_obj_set:
  "obj_get (obj_set k v ob) k' = (if k' = k then Some v else obj_get ob k')"
  by (induction ob) (auto simp: obj_get_def)

subsection \<open>Text and values\<close>

text \<open>
  C4. A text of exactly 100 characters comes back unchanged, with no marker. A longer
  text comes back as its first 100 characters followed by the marker \<open>...\<close>.
\<close>

theorem getInnerText_at_and_over_maximum:
  assumes "innerText el = Some t"
  shows "MAX_INNER_TEXT_LENGTH = 100 \<and>
     (length t = 100 \<longrightarrow> getInnerText el = t) \<and>
     (length t > 100 \<longrightarrow>
        getInnerText el = take 100 t @ ''...'' \<and> length (take 100 t) = 100)"
  using assms by (simp add: getInnerText_def MAX_INNER_TEXT_LENGTH_def)

theorem getInnerText_at_and_over_maximum_witness:
  "getInnerText (list_item\<lparr>innerText := Some (replicate 100 CHR ''a'')\<rparr>) =
     replicate 100 CHR ''a'' \<and>
   getInnerText (list_item\<lparr>innerText := Some (replicate 101 CHR ''a'')\<rparr>) =
     replicate 100 CHR ''a'' @ ''...''"
  using getInnerText_at_and_over_maximum
          [of "list_item\<lparr>innerText := Some (replicate 100 CHR ''a'')\<rparr>" "replicate 100 CHR ''a''"]
        getInnerText_at_and_over_maximum
          [of "list_item\<lparr>innerText := Some (replicate 101 CHR ''a'')\<rparr>" "replicate 101 CHR ''a''"]
  by simp

text \<open>
  C3. On a password field, the record of an input or a change event carries
  \<open>value == null\<close>, whatever the field holds: \<open>getInputValue\<close> is \<open>null\<close>, and the record
  the handler sends is the one built with that \<open>null\<close>.
\<close>

theorem password_field_value_is_null:
  assumes "el_type el = Some ''password''"
  shows "getInputValue el = JNull \<and>
     obj_get (createLogEntry pg ''input'' el [(''value'', getInputValue el)]) ''value'' =
       Some JNull \<and>
     obj_get (createLogEntry pg ''change'' el [(''value'', getInputValue el)]) ''value'' =
       Some JNull \<and>
     handleInput js pg el =
       sendEvent js pg (createLogEntry pg ''input'' el [(''value'', JNull)]) \<and>
     handleChange js pg el =
       sendEvent js pg (createLogEntry pg ''change'' el [(''value'', JNull)])"
  using assms
  by (simp add: getInputValue_def createLogEntry_def obj_get_def handleInput_def
      handleChange_def)

theorem password_field_value_is_null_witness:
  "el_type password_input = Some ''password'' \<and>
   el_value password_input = JStr ''hunter2'' \<and>
   obj_get (createLogEntry example_page ''input'' password_input
              [(''value'', getInputValue password_input)]) ''value'' = Some JNull"
proof -
  have h: "el_type password_input = Some ''password''"
    by (simp add: password_input_def)
  have v: "el_value password_input = JStr ''hunter2''"
    by (simp add: password_input_def)
  from password_field_value_is_null [OF h, where pg = example_page] h v show ?thesis
    by blast
qed

text \<open>
  C10. On a field that is not a password field and whose value is the empty string, the
  record of an input or a change event carries \<open>value == null\<close>, not the empty string:
  the record the handler sends is the one built with \<open>null\<close>, and its value entry is the
  one a password field's record has.
\<close>

theorem empty_value_is_null:
  assumes "el_type el \<noteq> Some ''password''" and "el_value el = JStr []"
  shows "getInputValue el = JNull \<and>
     obj_get (createLogEntry pg ''input'' el [(''value'', getInputValue el)]) ''value'' =
       Some JNull \<and>
     obj_get (createLogEntry pg ''change'' el [(''value'', getInputValue el)]) ''value'' =
       Some JNull \<and>
     handleInput js pg el =
       sendEvent js pg (createLogEntry pg ''input'' el [(''value'', JNull)]) \<and>
     handleChange js pg el =
       sendEvent js pg (createLogEntry pg ''change'' el [(''value'', JNull)]) \<and>
     obj_get (createLogEntry pg ''input'' el [(''value'', JNull)]) ''value'' \<noteq>
       Some (JStr []) \<and>
     (el_type pw = Some ''password'' \<longrightarrow>
        handleInput js pg pw =
          sendEvent js pg (createLogEntry pg ''input'' pw [(''value'', JNull)]) \<and>
        handleChange js pg pw =
          sendEvent js pg (createLogEntry pg ''change'' pw [(''value'', JNull)]) \<and>
        obj_get (createLogEntry pg ''input'' pw [(''value'', getInputValue pw)]) ''value'' =
        obj_get (createLogEntry pg ''input'' el [(''value'', getInputValue el)]) ''value'' \<and>
        obj_get (createLogEntry pg ''change'' pw [(''value'', getInputValue pw)]) ''value'' =
        obj_get (createLogEntry pg ''change'' el [(''value'', getInputValue el)]) ''value'')"
  using assms
  by (simp add: getInputValue_def js_or_def createLogEntry_def obj_get_def handleInput_def
      handleChange_def)

theorem empty_value_is_null_witness:
  "el_type empty_text_input \<noteq> Some ''password'' \<and>
   el_value empty_text_input = JStr [] \<and>
   el_type password_input = Some ''password'' \<and>
   getInputValue empty_text_input = JNull \<and>
   obj_get (createLogEntry example_page ''input'' password_input
              [(''value'', getInputValue password_input)]) ''value'' =
   obj_get (createLogEntry example_page ''input'' empty_text_input
              [(''value'', getInputValue empty_text_input)]) ''value''"
proof -
  have t: "el_type empty_text_input \<noteq> Some ''password''"
    by (simp add: empty_text_input_def)
  have v: "el_value empty_text_input = JStr []"
    by (simp add: empty_text_input_def)
  have p: "el_type password_input = Some ''password''"
    by (simp add: password_input_def)
  from empty_value_is_null [OF t v, where pw = password_input and pg = example_page] t v p
  show ?thesis
    by blast
qed

subsection \<open>Selectors\<close>

text \<open>Where \<open>element.id\<close> reads as a non-empty string, the selector is \<open>#\<close> and that
  string, whatever the tag name, the class name and the parent's children are.\<close>

lemma string_id_selector:
  assumes "t \<noteq> []" and "el_id el = PString i" and "i \<noteq> []"
  shows "generateSelector (el\<lparr>tagName := t, className := c, parentElement := p\<rparr>) =
           Some (''#'' @ i)"
  using assms by (simp add: generateSelector_def)

text \<open>
  C5. The claim: an element with a non-empty id gets the selector \<open>#\<close> followed by the
  id. The code at the sample form with the id \<open>edit\<close> and a hidden control named \<open>id\<close>,
  the target of that form's submit event: \<open>element.id\<close> is the control, it is truthy,
  and the selector is \<open>#\<close> followed by the string of the control, not \<open>#edit\<close>.
\<close>

theorem edit_form_selector:
  "map_of (attributes edit_form) ''id'' = Some ''edit'' \<and>
   generateSelector edit_form = Some ''#[object HTMLInputElement]'' \<and>
   generateSelector edit_form \<noteq> Some ''#edit'' \<and>
   obj_get (createLogEntry pg ''submit'' edit_form []) ''selector'' =
     Some (JStr ''#[object HTMLInputElement]'')"
  by (simp add: generateSelector_def edit_form_def createLogEntry_def obj_get_def)

lemma indexOf_same_tag:
  "(n, t) \<in> set kids \<Longrightarrow> distinct (map fst kids) \<Longrightarrow>
   indexOf (map fst (filter (\<lambda>s. snd s = t) kids)) n =
     int (length (filter (\<lambda>k. snd k = t) (takeWhile (\<lambda>k. fst k \<noteq> n) kids)))"
proof (induction kids)
  case Nil
  then show ?case by simp
next
  case (Cons k kids)
  show ?case
  proof (cases "fst k = n")
    case True
    with Cons.prems have "snd k = t"
      by (cases k) (auto simp: image_iff)
    with True show ?thesis by simp
  next
    case False
    with Cons.prems have "(n, t) \<in> set kids" and "distinct (map fst kids)"
      by auto
    then have ih: "indexOf (map fst (filter (\<lambda>s. snd s = t) kids)) n =
        int (length (filter (\<lambda>k. snd k = t) (takeWhile (\<lambda>k. fst k \<noteq> n) kids)))"
      by (rule Cons.IH)
    from False ih show ?thesis by (simp add: Let_def)
  qed
qed

lemma blank_class_no_classes:
  "list_all is_space cn \<Longrightarrow> filter (\<lambda>c. c \<noteq> []) (split_ws [] (trim cn)) = []"
proof -
  assume "list_all is_space cn"
  then have "trim cn = []"
    by (auto simp: trim_def list_all_iff dest: set_dropWhileD)
  then show ?thesis by simp
qed

text \<open>Where \<open>element.id\<close> reads as the empty string and the class list is empty, the
  selector is \<open>tag:nth-child(n)\<close>: \<open>tag\<close> is the tag name in lower case, \<open>n\<close> the 1-based
  position of the element among the children of its parent that have the same tag name,
  and \<open>n = 1\<close> when there is no parent.\<close>

lemma empty_string_id_selector:
  assumes "tagName el \<noteq> []" and "el_id el = PString []" and "no_class_list el"
    and "attached el"
  shows "generateSelector el =
           Some (toLowerCase (tagName el) @ '':nth-child('' @
                 num_string (int (same_tag_position el)) @ '')'') \<and>
         (parentElement el = None \<longrightarrow> same_tag_position el = 1)"
proof -
  have classes:
    "(case className el of
        JStr cn \<Rightarrow> if cn \<noteq> [] then filter (\<lambda>c. c \<noteq> []) (split_ws [] (trim cn)) else []
      | _ \<Rightarrow> []) = []"
    using assms(3)
    by (auto simp: no_class_list_def blank_class_no_classes split: jsval.splits)
  have index:
    "(case parentElement el of
        None \<Rightarrow> 1
      | Some siblings \<Rightarrow>
          let sameTagSiblings = filter (\<lambda>s. snd s = tagName el) siblings
          in indexOf (map fst sameTagSiblings) (node el) + 1) =
     int (same_tag_position el)"
    using assms(4)
    by (auto simp: attached_def same_tag_position_def indexOf_same_tag split: option.splits)
  show ?thesis
    using assms(1,2) classes index
    by (simp add: generateSelector_def same_tag_position_def)
qed

lemma list_item_selector:
  "generateSelector list_item = Some ''li:nth-child(2)''"
proof -
  have a: "tagName list_item \<noteq> []" "el_id list_item = PString []" "no_class_list list_item"
      "attached list_item"
    by (simp_all add: list_item_def no_class_list_def attached_def is_space_def)
  have p: "same_tag_position list_item = 2"
    by (simp add: same_tag_position_def list_item_def)
  have l: "toLowerCase (tagName list_item) = ''li''"
    by code_simp
  have n: "num_string 2 = ''2''"
    by code_simp
  from empty_string_id_selector [OF a] p l n show ?thesis
    by simp
qed

text \<open>
  C6. The claim: an element with an empty id and an empty class list gets the selector
  \<open>tag:nth-child(n)\<close>, \<open>n\<close> its 1-based position among the children of its parent with
  the same tag name. The code at the sample form without id and class, the second form
  of its parent, whose hidden control is named \<open>id\<close>: \<open>element.id\<close> is the control, the
  id branch is taken, and the selector is \<open>#\<close> followed by the string of the control,
  not \<open>form:nth-child(2)\<close>.
\<close>

theorem plain_form_selector:
  "map_of (attributes plain_form) ''id'' = None \<and>
   no_class_list plain_form \<and> attached plain_form \<and>
   same_tag_position plain_form = 2 \<and>
   generateSelector plain_form = Some ''#[object HTMLInputElement]'' \<and>
   generateSelector plain_form \<noteq> Some ''form:nth-child(2)''"
  by (simp add: generateSelector_def plain_form_def no_class_list_def attached_def
      same_tag_position_def)

subsection \<open>The value entry\<close>

text \<open>
  C7 (as stated, refuted). The record of a click event does carry a \<open>value\<close> entry: the
  click on the sample password field is recorded with the key \<open>value\<close>, holding \<open>null\<close>;
  so is the submit of the sample form.
\<close>

theorem click_record_has_value_entry:
  "has_key (createLogEntry example_page ''click'' password_input []) ''value'' \<and>
   obj_get (createLogEntry example_page ''click'' password_input []) ''value'' = Some JNull \<and>
   handleClick (\<lambda>e. []) example_page password_input =
     sendEvent (\<lambda>e. []) example_page
       (createLogEntry example_page ''click'' password_input []) \<and>
   has_key (createLogEntry example_page ''submit'' login_form
              [(''formValues'', JObj [(''secret'', JStr ''hunter2'')])]) ''value''"
  by (simp add: createLogEntry_def has_key_def obj_get_def handleClick_def)

text \<open>
  C7 (amended). Every interaction record carries a \<open>value\<close> entry. The record
  \<open>handleClick\<close> sends and the record \<open>handleSubmit\<close> sends hold \<open>null\<close> there. The
  record \<open>handleInput\<close> or \<open>handleChange\<close> sends holds \<open>null\<close> for a password field and
  for a field whose value is falsy (the empty string for one), and otherwise the
  field's value. So a value other than \<open>null\<close> occurs only in the records of input and
  change events. (The target is an element.)
\<close>

theorem value_entry_of_every_record:
  assumes "tagName el \<noteq> []"
  shows
  "handleClick js pg el = sendEvent js pg (createLogEntry pg ''click'' el []) \<and>
   has_key (createLogEntry pg ''click'' el []) ''value'' \<and>
   obj_get (createLogEntry pg ''click'' el []) ''value'' = Some JNull \<and>
   handleSubmit js pg el =
     (case getFormValues el of
        Inl e \<Rightarrow> Inl e
      | Inr fv \<Rightarrow>
          sendEvent js pg (createLogEntry pg ''submit'' el [(''formValues'', JObj fv)])) \<and>
   (\<forall>fv. has_key (createLogEntry pg ''submit'' el [(''formValues'', JObj fv)]) ''value'' \<and>
      obj_get (createLogEntry pg ''submit'' el [(''formValues'', JObj fv)]) ''value'' =
        Some JNull) \<and>
   handleInput js pg el =
     sendEvent js pg
       (createLogEntry pg ''input'' el
          [(''value'',
            if el_type el = Some ''password'' then JNull
            else if truthy (el_value el) then el_value el else JNull)]) \<and>
   handleChange js pg el =
     sendEvent js pg
       (createLogEntry pg ''change'' el
          [(''value'',
            if el_type el = Some ''password'' then JNull
            else if truthy (el_value el) then el_value el else JNull)]) \<and>
   (\<forall>v. has_key (createLogEntry pg ''input'' el [(''value'', v)]) ''value'' \<and>
      obj_get (createLogEntry pg ''input'' el [(''value'', v)]) ''value'' = Some v \<and>
      has_key (createLogEntry pg ''change'' el [(''value'', v)]) ''value'' \<and>
      obj_get (createLogEntry pg ''change'' el [(''value'', v)]) ''value'' = Some v)"
  by (simp add: createLogEntry_def has_key_def obj_get_def handleClick_def handleSubmit_def
      handleInput_def handleChange_def getInputValue_def js_or_def)

theorem value_entry_of_every_record_witness:
  "tagName password_input \<noteq> [] \<and>
   obj_get (createLogEntry example_page ''click'' password_input []) ''value'' = Some JNull \<and>
   handleInput (\<lambda>e. []) example_page empty_text_input =
     sendEvent (\<lambda>e. []) example_page
       (createLogEntry example_page ''input'' empty_text_input [(''value'', JNull)]) \<and>
   handleInput (\<lambda>e. []) example_page (empty_text_input\<lparr>el_value := JStr ''ann''\<rparr>) =
     sendEvent (\<lambda>e. []) example_page
       (createLogEntry example_page ''input'' (empty_text_input\<lparr>el_value := JStr ''ann''\<rparr>)
          [(''value'', JStr ''ann'')])"
proof -
  have t: "tagName password_input \<noteq> []"
    by (simp add: password_input_def)
  have u: "tagName empty_text_input \<noteq> []"
    "tagName (empty_text_input\<lparr>el_value := JStr ''ann''\<rparr>) \<noteq> []"
    by (simp_all add: empty_text_input_def)
  have v: "el_type empty_text_input = Some ''text''" "el_value empty_text_input = JStr []"
    by (simp_all add: empty_text_input_def)
  from value_entry_of_every_record [OF t, where pg = example_page]
    value_entry_of_every_record [OF u(1), where pg = example_page and js = "\<lambda>e. []"]
    value_entry_of_every_record [OF u(2), where pg = example_page and js = "\<lambda>e. []"]
    t v
  show ?thesis
    by simp
qed

subsection \<open>Form values\<close>

text \<open>
  What the redaction of \<open>getFormValues\<close> does achieve: the entry of a name is the
  redaction marker whenever the first element of the form that carries the name is a
  password field. The loop keeps this for every name it has written or will write.
\<close>

lemma getFormValues_loop_redacts:
  assumes "list_all (\<lambda>e. css_plain (fst e)) entries"
    and "first_named_is_password form name"
    and "name \<in> fst ` set entries \<or> obj_get vals name = Some (JStr ''[REDACTED]'')"
  shows "\<exists>vals'. getFormValues_loop form entries vals = Inr vals' \<and>
           obj_get vals' name = Some (JStr ''[REDACTED]'')"
  using assms
proof (induction entries arbitrary: vals)
  case Nil
  then show ?case by simp
next
  case (Cons e entries)
  obtain n v where e: "e = (n, v)" by (cases e)
  from Cons.prems(1) e have plain: "css_plain n"
    and rest: "list_all (\<lambda>e. css_plain (fst e)) entries"
    by simp_all
  let ?vals1 = "if first_named_is_password form n
                then obj_set n (JStr ''[REDACTED]'') vals else obj_set n (JStr v) vals"
  have step: "getFormValues_loop form (e # entries) vals =
      getFormValues_loop form entries ?vals1"
    using e plain
    by (simp add: querySelector_name_def first_named_is_password_def split: option.splits)
  have "name \<in> fst ` set entries \<or> obj_get ?vals1 name = Some (JStr ''[REDACTED]'')"
    using Cons.prems(2,3) e by (auto simp: obj_get_obj_set)
  with rest Cons.prems(2)
  have "\<exists>vals'. getFormValues_loop form entries ?vals1 = Inr vals' \<and>
           obj_get vals' name = Some (JStr ''[REDACTED]'')"
    by (rule Cons.IH)
  with step show ?case by simp
qed

lemma getFormValues_redacts:
  assumes "tagName form = ''FORM''"
    and "list_all (\<lambda>f. css_plain (field_name f)) (formFields form)"
    and "f \<in> set (formFields form)" and "successful f" and "field_name f \<noteq> []"
    and "first_named_is_password form (field_name f)"
  shows "\<exists>vals. getFormValues form = Inr vals \<and>
           obj_get vals (field_name f) = Some (JStr ''[REDACTED]'')"
proof -
  let ?entries = "map (\<lambda>f. (field_name f, field_value f))
                  (filter (\<lambda>f. successful f \<and> field_name f \<noteq> []) (formFields form))"
  have "list_all (\<lambda>e. css_plain (fst e)) ?entries"
    using assms(2) by (auto simp: list_all_iff)
  moreover have "field_name f \<in> fst ` set ?entries"
    using assms(3,4,5) by force
  ultimately have "\<exists>vals'. getFormValues_loop form ?entries [] = Inr vals' \<and>
           obj_get vals' (field_name f) = Some (JStr ''[REDACTED]'')"
    using assms(6) by (intro getFormValues_loop_redacts) auto
  then show ?thesis
    using assms(1) by (simp add: getFormValues_def formData_entries_def)
qed

text \<open>
  C1. The claim: a password field appears in \<open>formValues\<close> only as \<open>[REDACTED]\<close>, also
  when another field shares its name. The code at the sample login form, where a text
  field named \<open>secret\<close> stands before the password field of the same name:
  \<open>querySelector\<close> finds the text field for both entries, nothing is redacted, and the
  submit record carries the password as typed.
\<close>

theorem login_form_leaks:
  "getFormValues login_form = Inr [(''secret'', JStr ''hunter2'')] \<and>
   handleSubmit js example_page login_form =
     sendEvent js example_page
       (createLogEntry example_page ''submit'' login_form
          [(''formValues'', JObj [(''secret'', JStr ''hunter2'')])])"
  by (simp add: handleSubmit_def getFormValues_def formData_entries_def login_form_def
      querySelector_name_def css_plain_def)

subsection \<open>Delivery\<close>

text \<open>
  C8. When the runtime message channel throws, \<open>sendEvent\<close> still prints the record on
  the console with the prefix \<open>WEB_LOGGER_EVENT:\<close> and pushes it onto the window buffer
  (a buffer that is undefined or an array, as the script leaves it), and it returns
  normally; it returns normally on every page.
\<close>

theorem sendEvent_when_runtime_throws:
  assumes "runtime_throws pg" and "webLoggerEvents pg \<noteq> WNonArray"
  shows "(case sendEvent js pg e of
            Inl x \<Rightarrow> False
          | Inr pg' \<Rightarrow>
              console_lines pg' = console_lines pg @ [''WEB_LOGGER_EVENT:'' @ js e] \<and>
              webLoggerEvents pg' =
                WArray ((case webLoggerEvents pg of WArray es \<Rightarrow> es | _ \<Rightarrow> []) @ [e]) \<and>
              sent pg' = sent pg) \<and>
         (\<forall>p. \<exists>p'. sendEvent js p e = Inr p')"
  using assms
  by (simp add: sendEvent_def runtime_sendMessage_def window_push_def WEB_LOGGER_EVENT_def
      Let_def split: window_buffer.splits sum.splits)

theorem sendEvent_when_runtime_throws_witness:
  "runtime_throws example_page \<and>
   (case sendEvent (\<lambda>e. ''{}'') example_page [(''event'', JStr ''click'')] of
      Inl x \<Rightarrow> False
    | Inr pg' \<Rightarrow>
        console_lines pg' = [''WEB_LOGGER_EVENT:{}''] \<and>
        webLoggerEvents pg' = WArray [[(''event'', JStr ''click'')]] \<and>
        sent pg' = [])"
proof -
  have r: "runtime_throws example_page"
    by (simp add: example_page_def)
  have w: "webLoggerEvents example_page \<noteq> WNonArray"
    by (simp add: example_page_def)
  have f: "console_lines example_page = []" "webLoggerEvents example_page = WUndefined"
      "sent example_page = []"
    by (simp_all add: example_page_def)
  from sendEvent_when_runtime_throws
         [OF r w, of "\<lambda>e. ''{}''" "[(''event'', JStr ''click'')]"] r f
  show ?thesis
    by (simp split: sum.splits)
qed

section \<open>Properties of the background relay\<close>

lemma relay_step_captured:
  "capturedEvents (relay_step rl a) =
     (if is_clearing a then [] else capturedEvents rl @ contribution a)"
proof (cases a)
  case (FromContent m sndr)
  then show ?thesis
    by (auto simp: relay_step_def is_clearing_def onMessage_def set_prop_def tagged_def
        Let_def split: jsval.splits sum.splits)
next
  case (External m)
  then show ?thesis
    by (simp add: relay_step_def is_clearing_def onMessageExternal_def)
next
  case (OnPort port_name m)
  then show ?thesis
    by (simp add: relay_step_def is_clearing_def onPortMessage_def)
qed

lemma relay_run_snoc: "relay_run rl (tr @ [a]) = relay_step (relay_run rl tr) a"
  by (simp add: relay_run_def)

lemma accumulated_snoc:
  "accumulated (tr @ [a]) = (if is_clearing a then [] else accumulated tr @ contribution a)"
  by (simp add: accumulated_def after_last_clear_def)

text \<open>The buffer after a run: what it held at the start, unless a clear came, and then
  the events accumulated since the last clear.\<close>

lemma relay_run_captured:
  "capturedEvents (relay_run rl tr) =
     (if list_ex is_clearing tr then [] else capturedEvents rl) @ accumulated tr"
proof (induction tr rule: rev_induct)
  case Nil
  then show ?case by (simp add: relay_run_def accumulated_def after_last_clear_def)
next
  case (snoc a tr)
  then show ?case
    by (simp add: relay_run_snoc relay_step_captured accumulated_snoc)
qed

text \<open>
  C9. A \<open>getEvents\<close> request, on either interface, answers with the buffer and leaves the
  relay as it was. After any run of a relay that started with an empty buffer, a
  \<open>getAndClearEvents\<close> request answers with exactly the events accumulated since the
  last clear, in arrival order, and leaves the buffer empty. An arrival that is no clearing request keeps the buffer it found as
  a prefix of the new one.
\<close>

theorem relay_buffer_reads:
  "onMessageExternal rl (m\<lparr>msg_type := ''getEvents''\<rparr>) =
     (Some (Events (capturedEvents rl)), rl) \<and>
   onPortMessage ''web-logger'' rl (m\<lparr>msg_type := ''getEvents''\<rparr>) =
     ([Events (capturedEvents rl)], rl) \<and>
   onMessageExternal (relay_run (rl0\<lparr>capturedEvents := []\<rparr>) tr)
       (m\<lparr>msg_type := ''getAndClearEvents''\<rparr>) =
     (Some (Events (accumulated tr)),
      (relay_run (rl0\<lparr>capturedEvents := []\<rparr>) tr)\<lparr>capturedEvents := []\<rparr>) \<and>
   onPortMessage ''web-logger'' (relay_run (rl0\<lparr>capturedEvents := []\<rparr>) tr)
       (m\<lparr>msg_type := ''getAndClearEvents''\<rparr>) =
     ([Events (accumulated tr)],
      (relay_run (rl0\<lparr>capturedEvents := []\<rparr>) tr)\<lparr>capturedEvents := []\<rparr>) \<and>
   (\<not> is_clearing a \<longrightarrow>
      take (length (capturedEvents rl)) (capturedEvents (relay_step rl a)) =
        capturedEvents rl)"
proof -
  have "capturedEvents (relay_run (rl0\<lparr>capturedEvents := []\<rparr>) tr) = accumulated tr"
    by (simp add: relay_run_captured)
  then show ?thesis
    by (simp add: onMessageExternal_def onPortMessage_def relay_step_captured)
qed

theorem relay_buffer_reads_witness:
  "fst (onMessageExternal (relay_run relay_start sample_arrivals)
          (request ''getAndClearEvents'')) =
     Some (Events
       [JObj [(''timestamp'', JNum 2), (''tabId'', JNum 7),
              (''tabUrl'', JStr ''https://example.com/login'')],
        JObj [(''timestamp'', JNum 3), (''tabId'', JNum 7),
              (''tabUrl'', JStr ''https://example.com/login'')]]) \<and>
   capturedEvents (snd (onMessageExternal (relay_run relay_start sample_arrivals)
                          (request ''getAndClearEvents''))) = [] \<and>
   \<not> is_clearing (External (request ''getEvents'')) \<and>
   take (length (capturedEvents (relay_run relay_start sample_arrivals)))
     (capturedEvents (relay_step (relay_run relay_start sample_arrivals)
                        (External (request ''getEvents'')))) =
   capturedEvents (relay_run relay_start sample_arrivals)"
proof -
  have acc: "accumulated sample_arrivals =
       [JObj [(''timestamp'', JNum 2), (''tabId'', JNum 7),
              (''tabUrl'', JStr ''https://example.com/login'')],
        JObj [(''timestamp'', JNum 3), (''tabId'', JNum 7),
              (''tabUrl'', JStr ''https://example.com/login'')]]"
    by (simp add: accumulated_def after_last_clear_def sample_arrivals_def is_clearing_def
        request_def interaction_message_def tagged_def sample_sender_def)
  have nc: "\<not> is_clearing (External (request ''getEvents''))"
    by (simp add: is_clearing_def request_def)
  have m: "(request ''getAndClearEvents'')\<lparr>msg_type := ''getAndClearEvents''\<rparr> =
      request ''getAndClearEvents''"
    by (simp add: request_def)
  have s: "relay_start\<lparr>capturedEvents := []\<rparr> = relay_start"
    by (simp add: relay_start_def)
  from relay_buffer_reads
         [where m = "request ''getAndClearEvents''" and tr = sample_arrivals
            and a = "External (request ''getEvents'')"
            and rl = "relay_run relay_start sample_arrivals" and ?rl0.0 = relay_start]
    acc nc m s
  show ?thesis by simp
qed

section \<open>Properties of the session timeline\<close>

text \<open>One append: an event that records the interaction of \<open>k\<close> makes the number of
  its entries one if it was zero, and changes nothing otherwise.\<close>

lemma entries_for_append_event:
  "entries_for k (append_event events ev) =
     (if same_interaction k ev
      then (if entries_for k events = 0 then 1 else entries_for k events)
      else entries_for k events)"
proof (cases "is_interaction ev \<and> list_ex (same_interaction ev) events")
  case True
  then obtain e where e: "e \<in> set events" "same_interaction ev e"
    by (auto simp: list_ex_iff)
  show ?thesis
  proof (cases "same_interaction k ev")
    case k: True
    with e have "same_interaction k e"
      by (simp add: same_interaction_def)
    with e(1) have "filter (same_interaction k) events \<noteq> []"
      by (auto simp: filter_empty_conv)
    with True k show ?thesis
      by (simp add: append_event_def entries_for_def)
  next
    case False
    with True show ?thesis
      by (simp add: append_event_def entries_for_def)
  qed
next
  case False
  show ?thesis
  proof (cases "same_interaction k ev")
    case k: True
    then have iv: "is_interaction ev"
      by (simp add: same_interaction_def)
    with False have none: "\<not> list_ex (same_interaction ev) events"
      by simp
    have "filter (same_interaction k) events = []"
    proof (rule ccontr)
      assume "filter (same_interaction k) events \<noteq> []"
      then obtain e where "e \<in> set events" "same_interaction k e"
        by (auto simp: filter_empty_conv)
      with k have "e \<in> set events" "same_interaction ev e"
        by (simp_all add: same_interaction_def)
      with none show False
        by (auto simp: list_ex_iff)
    qed
    with False k show ?thesis
      by (simp add: append_event_def entries_for_def)
  next
    case nk: False
    with False show ?thesis
      by (auto simp: append_event_def entries_for_def)
  qed
qed

lemma entries_for_append_all_le:
  "entries_for k events \<le> 1 \<Longrightarrow> entries_for k (append_all events ds) \<le> 1"
  by (induction ds arbitrary: events) (simp_all add: append_all_def entries_for_append_event)

lemma entries_for_append_all_mono:
  "entries_for k events \<le> entries_for k (append_all events ds)"
proof (induction ds arbitrary: events)
  case Nil
  then show ?case by (simp add: append_all_def)
next
  case (Cons x ds)
  have "entries_for k events \<le> entries_for k (append_event events x)"
    by (simp add: entries_for_append_event)
  also have "\<dots> \<le> entries_for k (append_all (append_event events x) ds)"
    by (rule Cons.IH)
  finally show ?case by (simp add: append_all_def)
qed

lemma entries_for_append_all:
  "entries_for k events \<le> 1 \<Longrightarrow> d \<in> set ds \<Longrightarrow> same_interaction k d \<Longrightarrow>
   entries_for k (append_all events ds) = 1"
proof (induction ds arbitrary: events)
  case Nil
  then show ?case by simp
next
  case (Cons x ds)
  have le: "entries_for k (append_event events x) \<le> 1"
    using Cons.prems(1) by (simp add: entries_for_append_event)
  show ?case
  proof (cases "same_interaction k x")
    case True
    then have one: "entries_for k (append_event events x) = 1"
      using Cons.prems(1) by (auto simp: entries_for_append_event)
    have "entries_for k (append_all (append_event events x) ds) \<le> 1"
      using le by (rule entries_for_append_all_le)
    moreover have "entries_for k (append_all (append_event events x) ds) \<ge> 1"
      using entries_for_append_all_mono [of k "append_event events x" ds] one by simp
    ultimately show ?thesis by (simp add: append_all_def)
  next
    case False
    with Cons.prems have "d \<in> set ds" by auto
    with le Cons.prems(3)
    have "entries_for k (append_all (append_event events x) ds) = 1"
      by (simp add: Cons.IH)
    then show ?thesis by (simp add: append_all_def)
  qed
qed

text \<open>The relay's tab information does not touch the content key: the record that went
  through the background relay is the sample click with \<open>tabId\<close> and \<open>tabUrl\<close> set.\<close>

lemma relayed_click_entry_from_relay:
  "capturedEvents (relay_step relay_start
     (FromContent \<lparr>msg_type = ''interaction'', msg_data = JObj click_entry\<rparr> sample_sender)) =
   [JObj relayed_click_entry]"
  by (simp add: relay_step_def onMessage_def set_prop_def relay_start_def sample_sender_def
      relayed_click_entry_def)

text \<open>
  C2. When two interaction events with the same content key (timestamp, selector, event
  kind) are among the deliveries, through two different channels, the timeline built
  from the deliveries holds exactly one entry for that key, however many deliveries
  carried it.
\<close>

theorem one_entry_per_interaction:
  assumes "(c1, e1) \<in> set deliveries" and "(c2, e2) \<in> set deliveries" and "c1 \<noteq> c2"
    and "is_interaction e1" and "is_interaction e2" and "content_key e1 = content_key e2"
  shows "length (filter (same_interaction e1) (append_all [] (map snd deliveries))) = 1"
proof -
  have "e1 \<in> set (map snd deliveries)"
    using assms(1) by force
  moreover have "same_interaction e1 e1"
    using assms(4) by (simp add: same_interaction_def)
  moreover have "entries_for e1 [] \<le> 1"
    by (simp add: entries_for_def)
  ultimately have "entries_for e1 (append_all [] (map snd deliveries)) = 1"
    by (metis entries_for_append_all)
  then show ?thesis by (simp add: entries_for_def)
qed

theorem one_entry_per_interaction_witness:
  "is_interaction click_entry \<and> is_interaction relayed_click_entry \<and>
   content_key relayed_click_entry = content_key click_entry \<and>
   relayed_click_entry \<noteq> click_entry \<and>
   length (filter (same_interaction relayed_click_entry)
     (append_all []
        (map snd [(RuntimeMessage, relayed_click_entry), (ConsoleLine, click_entry),
                  (PolledBuffer, click_entry)]))) = 1"
proof -
  have i1: "is_interaction click_entry"
    by (simp add: is_interaction_def click_entry_def createLogEntry_def obj_get_def)
  have i2: "is_interaction relayed_click_entry"
    using i1 by (simp add: is_interaction_def relayed_click_entry_def obj_get_obj_set)
  have k: "content_key relayed_click_entry = content_key click_entry"
    by (simp add: content_key_def relayed_click_entry_def obj_get_obj_set)
  have "obj_get relayed_click_entry ''tabId'' \<noteq> obj_get click_entry ''tabId''"
    by (simp add: relayed_click_entry_def obj_get_obj_set click_entry_def createLogEntry_def
        obj_get_def)
  then have d: "relayed_click_entry \<noteq> click_entry"
    by auto
  have c: "RuntimeMessage \<noteq> PolledBuffer"
    by simp
  have m1: "(RuntimeMessage, relayed_click_entry) \<in>
      set [(RuntimeMessage, relayed_click_entry), (ConsoleLine, click_entry),
           (PolledBuffer, click_entry)]"
    by simp
  have m2: "(PolledBuffer, click_entry) \<in>
      set [(RuntimeMessage, relayed_click_entry), (ConsoleLine, click_entry),
           (PolledBuffer, click_entry)]"
    by simp
  from one_entry_per_interaction [OF m1 m2 c i2 i1 k] i1 i2 k d show ?thesis
    by blast
qed

end
